theory Spec2Isabelle
  imports Complex_Main
begin

section \<open>Values of the host language\<close>

text \<open>
  The worker \<^verbatim>\<open>src/index.ts\<close> computes with JavaScript numbers, strings and
  object literals. The embedding keeps the following conventions throughout.

  \<^item> A number is either a rational (\<open>Number\<close>) or \<open>NaN\<close>. Products and quotients
    are exact: the binary rounding of intermediate IEEE results is not modelled, so
    where an exact product lies on a half the rounded score of the worker may be the
    neighbouring integer. The concrete scores stated below are also the worker's.
  \<^item> A text is a \<open>string\<close>, read as a sequence of code units below 256.
  \<^item> A thrown exception is a value of type \<open>error\<close> on the left of a sum.
\<close>

datatype number = Number rat | NaN

fun mul :: "number \<Rightarrow> number \<Rightarrow> number" where
  "mul (Number a) (Number b) = Number (a * b)"
| "mul _ _ = NaN"

fun sub :: "number \<Rightarrow> number \<Rightarrow> number" where
  "sub (Number a) (Number b) = Number (a - b)"
| "sub _ _ = NaN"

text \<open>Comparisons with \<open>NaN\<close> are false, whichever side it is on.\<close>

fun gt :: "number \<Rightarrow> number \<Rightarrow> bool" where
  "gt (Number a) (Number b) = (a > b)"
| "gt _ _ = False"

fun ge :: "number \<Rightarrow> number \<Rightarrow> bool" where
  "ge (Number a) (Number b) = (a \<ge> b)"
| "ge _ _ = False"

text \<open>\<^verbatim>\<open>Math.round\<close>: the nearest integer, a tie going to the larger one.\<close>

fun Math_round :: "number \<Rightarrow> number" where
  "Math_round (Number x) = Number (of_int \<lfloor>x + 1 / 2\<rfloor>)"
| "Math_round NaN = NaN"

datatype error = TypeError | SyntaxError | Failure string

subsection \<open>Property lookup on an object literal\<close>

text \<open>
  \<^verbatim>\<open>obj[key]\<close> on an object literal finds the literal's own entries first and then
  the members every object inherits from \<^verbatim>\<open>Object.prototype\<close>; only when both
  miss is the result \<^verbatim>\<open>undefined\<close>. The inherited members are functions (and,
  for \<^verbatim>\<open>__proto__\<close>, the prototype object itself): truthy, and not numbers.
\<close>

datatype 'a property = Own 'a | Inherited string | Undefined

definition Object_prototype :: "string list" where
  "Object_prototype =
     [''constructor'', ''hasOwnProperty'', ''isPrototypeOf'', ''propertyIsEnumerable'',
      ''toLocaleString'', ''toString'', ''valueOf'', ''__proto__'',
      ''__defineGetter__'', ''__defineSetter__'', ''__lookupGetter__'', ''__lookupSetter__'']"

definition get_property :: "(string \<times> 'a) list \<Rightarrow> string \<Rightarrow> 'a property" where
  "get_property obj key =
     (case map_of obj key of
        Some v \<Rightarrow> Own v
      | None \<Rightarrow> if key \<in> set Object_prototype then Inherited key else Undefined)"

subsection \<open>String operations\<close>

text \<open>\<^verbatim>\<open>s.includes(t)\<close>: \<open>t\<close> occurs in \<open>s\<close> as a contiguous run.\<close>

fun includes_text :: "string \<Rightarrow> string \<Rightarrow> bool" where
  "includes_text [] t = (t = [])"
| "includes_text (c # cs) t = (take (length t) (c # cs) = t \<or> includes_text cs t)"

text \<open>\<^verbatim>\<open>s.toLowerCase()\<close> on code units below 256: A-Z and the accented capitals.\<close>

definition lower :: "char \<Rightarrow> char" where
  "lower c =
     (let n = (of_char c :: nat)
      in if (65 \<le> n \<and> n \<le> 90) \<or> (192 \<le> n \<and> n \<le> 222 \<and> n \<noteq> 215)
         then char_of (n + 32) else c)"

definition toLowerCase :: "string \<Rightarrow> string" where
  "toLowerCase s = map lower s"

text \<open>
  \<^verbatim>\<open>s.split(sep)\<close> for a non-empty separator text: the pieces between successive
  occurrences of \<open>sep\<close>, found from the left without overlap. The second argument
  collects, reversed, the piece being read.
\<close>

fun split_from :: "string \<Rightarrow> string \<Rightarrow> string \<Rightarrow> string list" where
  "split_from sep piece [] = [rev piece]"
| "split_from sep piece (c # cs) =
     (if sep \<noteq> [] \<and> take (length sep) (c # cs) = sep
      then rev piece # split_from sep [] (drop (length sep - 1) cs)
      else split_from sep (c # piece) cs)"

definition split :: "string \<Rightarrow> string \<Rightarrow> string list" where
  "split s sep = split_from sep [] s"


text \<open>\<^verbatim>\<open>xs.slice(0, n)\<close> and \<^verbatim>\<open>s.substring(0, n)\<close> are \<open>take n\<close>.\<close>

section \<open>JSON texts\<close>

datatype json =
    JNull
  | JBool bool
  | JNumber rat
  | JString string
  | JArray "json list"
  | JObject "(string \<times> json) list"

text \<open>Truthiness, as \<^verbatim>\<open>||\<close> tests it.\<close>

fun truthy :: "json \<Rightarrow> bool" where
  "truthy JNull = False"
| "truthy (JBool b) = b"
| "truthy (JNumber n) = (n \<noteq> 0)"
| "truthy (JString s) = (s \<noteq> [])"
| "truthy (JArray _) = True"
| "truthy (JObject _) = True"

subsection \<open>Tokens\<close>

datatype token =
    LBRACE | RBRACE | LBRACKET | RBRACKET | COLON | COMMA
  | TSTRING string
  | TSCALAR json

definition is_digit :: "char \<Rightarrow> bool" where
  "is_digit c = (48 \<le> (of_char c :: nat) \<and> (of_char c :: nat) \<le> 57)"

definition digit_val :: "char \<Rightarrow> nat" where
  "digit_val c = of_char c - 48"

definition hex_val :: "char \<Rightarrow> nat option" where
  "hex_val c =
     (let n = (of_char c :: nat)
      in if 48 \<le> n \<and> n \<le> 57 then Some (n - 48)
         else if 65 \<le> n \<and> n \<le> 70 then Some (n - 55)
         else if 97 \<le> n \<and> n \<le> 102 then Some (n - 87)
         else None)"

definition is_space :: "char \<Rightarrow> bool" where
  "is_space c = ((of_char c :: nat) \<in> {32, 9, 10, 13})"

definition decimal :: "string \<Rightarrow> nat" where
  "decimal ds = foldl (\<lambda>n d. 10 * n + digit_val d) 0 ds"

text \<open>
  The four hexadecimal digits of a \<^verbatim>\<open>\u\<close> escape. A code unit of 256 or more
  has no counterpart among the characters of the model and is read as \<^verbatim>\<open>?\<close>.
\<close>

definition unicode_escape :: "string \<Rightarrow> char option" where
  "unicode_escape hs =
     (case map hex_val hs of
        [Some a, Some b, Some c, Some d] \<Rightarrow>
          (let n = ((a * 16 + b) * 16 + c) * 16 + d
           in Some (if n < 256 then char_of n else CHR ''?''))
      | _ \<Rightarrow> None)"

definition simple_escape :: "char \<Rightarrow> char option" where
  "simple_escape e =
     (if e = CHR 0x22 then Some (CHR 0x22)
      else if e = CHR 0x5C then Some (CHR 0x5C)
      else if e = CHR ''/'' then Some (CHR ''/'')
      else if e = CHR ''b'' then Some (CHR 0x08)
      else if e = CHR ''f'' then Some (CHR 0x0C)
      else if e = CHR ''n'' then Some (CHR 0x0A)
      else if e = CHR ''r'' then Some (CHR 0x0D)
      else if e = CHR ''t'' then Some (CHR 0x09)
      else None)"

text \<open>
  The body of a string literal, after its opening quote: the decoded text and what
  follows the closing quote. Control characters must be escaped.
\<close>

fun string_body :: "string \<Rightarrow> string \<Rightarrow> (string \<times> string) option" where
  "string_body acc [] = None"
| "string_body acc [c] = (if c = CHR 0x22 then Some (rev acc, []) else None)"
| "string_body acc (c # e # cs) =
     (if c = CHR 0x22 then Some (rev acc, e # cs)
      else if c = CHR 0x5C then
        (if e = CHR ''u'' then
           (case unicode_escape (take 4 cs) of
              None \<Rightarrow> None
            | Some u \<Rightarrow> string_body (u # acc) (drop 4 cs))
         else
           (case simple_escape e of
              None \<Rightarrow> None
            | Some u \<Rightarrow> string_body (u # acc) cs))
      else if (of_char c :: nat) < 32 then None
      else string_body (c # acc) (e # cs))"

text \<open>
  A number literal: an optional minus, an integer part without a leading zero, an
  optional fraction, an optional exponent. Each part gives its value and the rest of
  the text; the literal fails where a part that has begun has no digit.
\<close>

definition int_part :: "string \<Rightarrow> (rat \<times> string) option" where
  "int_part s =
     (if s = [] \<or> \<not> is_digit (hd s) then None
      else if hd s = CHR ''0'' then Some (0, tl s)
      else Some (of_nat (decimal (takeWhile is_digit s)), dropWhile is_digit s))"

definition frac_part :: "string \<Rightarrow> (rat \<times> string) option" where
  "frac_part s =
     (if s \<noteq> [] \<and> hd s = CHR ''.'' then
        (let ds = takeWhile is_digit (tl s)
         in if ds = [] then None
            else Some (of_nat (decimal ds) / 10 ^ length ds, dropWhile is_digit (tl s)))
      else Some (0, s))"

definition exp_digits :: "string \<Rightarrow> (nat \<times> string) option" where
  "exp_digits s =
     (let ds = takeWhile is_digit s
      in if ds = [] then None else Some (decimal ds, dropWhile is_digit s))"

definition exp_part :: "string \<Rightarrow> (int \<times> string) option" where
  "exp_part s =
     (if s \<noteq> [] \<and> (hd s = CHR ''e'' \<or> hd s = CHR ''E'') then
        (if tl s \<noteq> [] \<and> hd (tl s) = CHR ''-'' then
           map_option (\<lambda>(e, rest). (- int e, rest)) (exp_digits (tl (tl s)))
         else if tl s \<noteq> [] \<and> hd (tl s) = CHR ''+'' then
           map_option (\<lambda>(e, rest). (int e, rest)) (exp_digits (tl (tl s)))
         else map_option (\<lambda>(e, rest). (int e, rest)) (exp_digits (tl s)))
      else Some (0, s))"

definition scale :: "rat \<Rightarrow> int \<Rightarrow> rat" where
  "scale m e = (if e < 0 then m / 10 ^ nat (- e) else m * 10 ^ nat e)"

definition unsigned_literal :: "string \<Rightarrow> (rat \<times> string) option" where
  "unsigned_literal s =
     (case int_part s of
        None \<Rightarrow> None
      | Some (i, s2) \<Rightarrow>
          (case frac_part s2 of
             None \<Rightarrow> None
           | Some (f, s3) \<Rightarrow>
               (case exp_part s3 of
                  None \<Rightarrow> None
                | Some (e, s4) \<Rightarrow> Some (scale (i + f) e, s4))))"

definition number_literal :: "string \<Rightarrow> (rat \<times> string) option" where
  "number_literal s =
     (if s \<noteq> [] \<and> hd s = CHR ''-''
      then map_option (\<lambda>(v, rest). (- v, rest)) (unsigned_literal (tl s))
      else unsigned_literal s)"

text \<open>
  The lexer. A literal is cut off the front of the text; whatever it leaves is lexed in
  turn, so a literal that consumes nothing ends the lexing with a failure.
\<close>

function lex :: "string \<Rightarrow> token list option" where
  "lex [] = Some []"
| "lex (c # cs) =
     (if is_space c then lex cs
      else if c = CHR ''{'' then map_option (Cons LBRACE) (lex cs)
      else if c = CHR ''}'' then map_option (Cons RBRACE) (lex cs)
      else if c = CHR ''['' then map_option (Cons LBRACKET) (lex cs)
      else if c = CHR '']'' then map_option (Cons RBRACKET) (lex cs)
      else if c = CHR '':'' then map_option (Cons COLON) (lex cs)
      else if c = CHR '','' then map_option (Cons COMMA) (lex cs)
      else if c = CHR 0x22 then
        (case string_body [] cs of
           None \<Rightarrow> None
         | Some (s, rest) \<Rightarrow> map_option (Cons (TSTRING s)) (lex rest))
      else if c = CHR ''-'' \<or> is_digit c then
        (case number_literal (c # cs) of
           None \<Rightarrow> None
         | Some (n, rest) \<Rightarrow> map_option (Cons (TSCALAR (JNumber n))) (lex rest))
      else if take 4 (c # cs) = ''true'' then
        map_option (Cons (TSCALAR (JBool True))) (lex (drop 3 cs))
      else if take 5 (c # cs) = ''false'' then
        map_option (Cons (TSCALAR (JBool False))) (lex (drop 4 cs))
      else if take 4 (c # cs) = ''null'' then
        map_option (Cons (TSCALAR JNull)) (lex (drop 3 cs))
      else None)"
  by pat_completeness auto

termination
proof (relation "measure length")
  have body: "length rest < Suc (length cs)"
    if "string_body acc cs = Some (s, rest)" for acc cs s rest
    using that
    by (induction acc cs rule: string_body.induct)
       (auto split: if_splits option.splits)
  have dw: "length (dropWhile P u) \<le> length u" for P and u :: string
    by (induction u) auto
  have ip: "length rest < length t" if "int_part t = Some (v, rest)" for t v rest
  proof (cases t)
    case Nil
    with that show ?thesis by (simp add: int_part_def)
  next
    case (Cons a u)
    with that dw [of is_digit u] show ?thesis
      by (auto simp: int_part_def split: if_splits)
  qed
  have fp: "length rest \<le> length t" if "frac_part t = Some (v, rest)" for t v rest
  proof (cases t)
    case Nil
    with that show ?thesis by (simp add: frac_part_def)
  next
    case (Cons a u)
    with that dw [of is_digit u] show ?thesis
      by (auto simp: frac_part_def Let_def split: if_splits)
  qed
  have ed: "length rest \<le> length t" if "exp_digits t = Some (v, rest)" for t v rest
    using that dw [of is_digit t] by (auto simp: exp_digits_def Let_def split: if_splits)
  have ep: "length rest \<le> length t" if "exp_part t = Some (v, rest)" for t v rest
  proof (cases t)
    case Nil
    with that show ?thesis by (simp add: exp_part_def)
  next
    case (Cons a u)
    show ?thesis
    proof (cases u)
      case Nil
      with Cons that ed [of "[]"] show ?thesis
        by (auto simp: exp_part_def split: if_splits)
    next
      case (Cons b w)
      with \<open>t = a # u\<close> that ed [of u] ed [of w] show ?thesis
        by (fastforce simp: exp_part_def split: if_splits)
    qed
  qed
  have ul: "length rest < length t" if "unsigned_literal t = Some (v, rest)" for t v rest
    using that
    by (fastforce simp: unsigned_literal_def split: option.splits dest: ip fp ep)
  have literal: "length rest < length t"
    if "number_literal t = Some (n, rest)" for t n rest
  proof (cases t)
    case Nil
    with that show ?thesis
      by (simp add: number_literal_def unsigned_literal_def int_part_def)
  next
    case (Cons a u)
    with that ul [of u] ul [of t] show ?thesis
      by (fastforce simp: number_literal_def split: if_splits)
  qed
  show "wf (measure length)"
    by simp
  show "(rest, c # cs) \<in> measure length"
    if "string_body [] cs = Some x" and "(s, rest) = x" for c cs x s rest
    using that body [of "[]" cs s rest] by auto
  show "(rest, c # cs) \<in> measure length"
    if "number_literal (c # cs) = Some x" and "(n, rest) = x" for c cs x n rest
    using that literal [of "c # cs" n rest] by auto
qed auto

subsection \<open>Parser\<close>

text \<open>
  The parser reads the tokens from the left and keeps the containers that are still
  open on a stack: an array with the elements read so far, an object with its members
  and the key that awaits its value. The mode says which tokens may come next.
\<close>

datatype frame =
    ArrayFrame "json list"
  | ObjectFrame "(string \<times> json) list" "string option"

datatype mode =
    WantValue
  | WantValueOrEnd
  | WantKeyOrEnd
  | WantKey
  | WantColon
  | WantCommaOrEnd
  | Finished json

fun push_value :: "json \<Rightarrow> frame list \<Rightarrow> (mode \<times> frame list) option" where
  "push_value v [] = Some (Finished v, [])"
| "push_value v (ArrayFrame es # st) = Some (WantCommaOrEnd, ArrayFrame (v # es) # st)"
| "push_value v (ObjectFrame ms (Some k) # st) =
     Some (WantCommaOrEnd, ObjectFrame ((k, v) # ms) None # st)"
| "push_value v (ObjectFrame ms None # st) = None"

fun begin_value :: "token \<Rightarrow> frame list \<Rightarrow> (mode \<times> frame list) option" where
  "begin_value (TSTRING s) st = push_value (JString s) st"
| "begin_value (TSCALAR v) st = push_value v st"
| "begin_value LBRACE st = Some (WantKeyOrEnd, ObjectFrame [] None # st)"
| "begin_value LBRACKET st = Some (WantValueOrEnd, ArrayFrame [] # st)"
| "begin_value _ st = None"

fun end_container :: "token \<Rightarrow> frame list \<Rightarrow> (mode \<times> frame list) option" where
  "end_container RBRACKET (ArrayFrame es # st) = push_value (JArray (rev es)) st"
| "end_container RBRACE (ObjectFrame ms None # st) = push_value (JObject (rev ms)) st"
| "end_container _ _ = None"

fun begin_member :: "token \<Rightarrow> frame list \<Rightarrow> (mode \<times> frame list) option" where
  "begin_member (TSTRING k) (ObjectFrame ms None # st) =
     Some (WantColon, ObjectFrame ms (Some k) # st)"
| "begin_member _ _ = None"

fun step :: "mode \<Rightarrow> frame list \<Rightarrow> token \<Rightarrow> (mode \<times> frame list) option" where
  "step WantValue st t = begin_value t st"
| "step WantValueOrEnd st t = (if t = RBRACKET then end_container t st else begin_value t st)"
| "step WantKeyOrEnd st t = (if t = RBRACE then end_container t st else begin_member t st)"
| "step WantKey st t = begin_member t st"
| "step WantColon st t = (if t = COLON then Some (WantValue, st) else None)"
| "step WantCommaOrEnd st t =
     (if t = COMMA then
        (case st of
           ArrayFrame es # _ \<Rightarrow> Some (WantValue, st)
         | ObjectFrame ms None # _ \<Rightarrow> Some (WantKey, st)
         | _ \<Rightarrow> None)
      else end_container t st)"
| "step (Finished v) st t = None"

fun run :: "mode \<Rightarrow> frame list \<Rightarrow> token list \<Rightarrow> json option" where
  "run m st [] = (case (m, st) of (Finished v, []) \<Rightarrow> Some v | _ \<Rightarrow> None)"
| "run m st (t # ts) =
     (case step m st t of
        None \<Rightarrow> None
      | Some (m', st') \<Rightarrow> run m' st' ts)"

text \<open>\<^verbatim>\<open>JSON.parse(text)\<close>; \<open>None\<close> stands for the \<^verbatim>\<open>SyntaxError\<close> it throws.\<close>

definition JSON_parse :: "string \<Rightarrow> json option" where
  "JSON_parse text =
     (case lex text of
        None \<Rightarrow> None
      | Some ts \<Rightarrow> run WantValue [] ts)"

text \<open>
  A state of the parser whose outermost container is an object: the value it can end
  with is an object.
\<close>

fun is_object :: "json \<Rightarrow> bool" where
  "is_object (JObject ms) = True"
| "is_object _ = False"

fun is_object_frame :: "frame \<Rightarrow> bool" where
  "is_object_frame (ObjectFrame ms k) = True"
| "is_object_frame _ = False"

fun object_bottom :: "mode \<Rightarrow> frame list \<Rightarrow> bool" where
  "object_bottom (Finished u) st = (st = [] \<and> is_object u)"
| "object_bottom m st = (st \<noteq> [] \<and> is_object_frame (last st))"

section \<open>The severity analysis\<close>

text \<open>
  One row of the grouped query of \<^verbatim>\<open>analyzeSeverity\<close>: a cohort of feedback with
  the same category and user type, the number of its records, their texts joined by
  \<^verbatim>\<open>' ||| '\<close> and their average age in days.
\<close>

record row =
  row_category :: string
  row_user_type :: string
  count :: nat
  samples :: string
  avg_age_days :: rat

record RiskAnalysis =
  category :: string
  user_type :: string
  complaint_count :: nat
  severity_score :: number
  sentiment :: json
  trend :: string
  velocity :: rat
  sample_feedback :: "string list"
  recommendation :: "string property"

subsection \<open>Lookup tables\<close>

definition criticalCategories :: "(string \<times> rat) list" where
  "criticalCategories =
     [(''performance'', 2), (''reliability'', 18 / 10), (''billing'', 17 / 10),
      (''security'', 25 / 10), (''data-loss'', 3)]"

text \<open>
  \<^verbatim>\<open>criticalCategories[row.category] || 1.0\<close>, as a factor of the score: an own
  entry is a number, an inherited member is truthy and multiplies to \<open>NaN\<close>, and only
  a key found nowhere gives the default.
\<close>

definition category_multiplier :: "string \<Rightarrow> number" where
  "category_multiplier k =
     (case get_property criticalCategories k of
        Own m \<Rightarrow> Number (if m = 0 then 1 else m)
      | Inherited _ \<Rightarrow> NaN
      | Undefined \<Rightarrow> Number 1)"

definition recommendations :: "(string \<times> string) list" where
  "recommendations =
     [(''performance_enterprise_accelerating'',
       ''URGENT: Enterprise performance degradation. Escalate to engineering + customer success immediately.''),
      (''billing_enterprise'',
       ''High churn risk. Schedule immediate call with affected accounts. Review billing clarity.''),
      (''reliability_enterprise'', ''SLA breach risk. Engage SRE team. Prepare incident report.''),
      (''dx_developer'', ''Developer experience issue. Prioritize docs update + devrel outreach.''),
      (''documentation'', ''Update docs within 48h. Consider video tutorial.'')]"

definition generateRecommendation ::
  "string \<Rightarrow> string \<Rightarrow> string \<Rightarrow> json \<Rightarrow> string property" where
  "generateRecommendation cat userType tr sent =
     (let key = cat @ ''_'' @ userType @ ''_'' @ tr
      in case get_property recommendations key of
           Undefined \<Rightarrow>
             (case get_property recommendations (cat @ ''_'' @ userType) of
                Undefined \<Rightarrow> Own ''Monitor closely. Consider adding to sprint backlog.''
              | p \<Rightarrow> p)
         | p \<Rightarrow> p)"

subsection \<open>Sentiment from the classifier\<close>

text \<open>
  \<^verbatim>\<open>aiText.match(/\{[\s\S]*\}/)\<close>: the match starts at the first opening brace
  and, the star being greedy, ends at the last closing brace after it.
\<close>

definition json_match :: "string \<Rightarrow> string option" where
  "json_match aiText =
     (let from_brace = dropWhile (\<lambda>c. c \<noteq> CHR ''{'') aiText
      in if from_brace \<noteq> [] \<and> CHR ''}'' \<in> set (tl from_brace)
         then Some (rev (dropWhile (\<lambda>c. c \<noteq> CHR ''}'') (rev from_brace)))
         else None)"

text \<open>
  \<^verbatim>\<open>parsed.sentiment || 'neutral'\<close>. Of two members with the same key the parser
  keeps the later one. Reading a property of \<^verbatim>\<open>null\<close> throws.
\<close>

definition sentiment_or_neutral :: "json \<Rightarrow> error + json" where
  "sentiment_or_neutral parsed =
     (case parsed of
        JNull \<Rightarrow> Inl TypeError
      | JObject members \<Rightarrow>
          (case map_of (rev members) ''sentiment'' of
             Some v \<Rightarrow> Inr (if truthy v then v else JString ''neutral'')
           | None \<Rightarrow> Inr (JString ''neutral''))
      | _ \<Rightarrow> Inr (JString ''neutral''))"

definition keyword_sentiment :: "string \<Rightarrow> string" where
  "keyword_sentiment aiText =
     (if includes_text (toLowerCase aiText) ''critical'' then ''critical''
      else if includes_text (toLowerCase aiText) ''negative'' then ''negative''
      else ''neutral'')"

text \<open>
  The statements of the \<^verbatim>\<open>try\<close> block that can throw, up to the assignment of
  \<^verbatim>\<open>sentiment\<close>. The argument is the outcome of \<^verbatim>\<open>env.AI.run\<close>: an exception,
  or a response whose \<^verbatim>\<open>response\<close> text may be missing.
\<close>

definition read_sentiment :: "error + string option \<Rightarrow> error + json" where
  "read_sentiment aiResponse =
     (case aiResponse of
        Inl e \<Rightarrow> Inl e
      | Inr response \<Rightarrow>
          (let aiText = (case response of None \<Rightarrow> [] | Some t \<Rightarrow> t)
           in case json_match aiText of
                Some jsonMatch \<Rightarrow>
                  (case JSON_parse jsonMatch of
                     None \<Rightarrow> Inl SyntaxError
                   | Some parsed \<Rightarrow> sentiment_or_neutral parsed)
              | None \<Rightarrow> Inr (JString (keyword_sentiment aiText))))"

text \<open>
  The whole \<^verbatim>\<open>try\<close>/\<^verbatim>\<open>catch\<close>: the sentiment and the score after it. An
  exception leaves both as they were before the block.
\<close>

definition sentiment_step :: "error + string option \<Rightarrow> number \<Rightarrow> json \<times> number" where
  "sentiment_step aiResponse score =
     (case read_sentiment aiResponse of
        Inl e \<Rightarrow> (JString ''neutral'', score)
      | Inr s \<Rightarrow>
          (s, if s = JString ''critical'' then mul score (Number (14 / 10))
              else if s = JString ''negative'' then mul score (Number (12 / 10))
              else score))"

subsection \<open>One cohort\<close>

text \<open>The body of the loop over the rows, given the outcome of the classifier call.\<close>

definition assess :: "error + string option \<Rightarrow> row \<Rightarrow> RiskAnalysis" where
  "assess aiResponse r =
     (let score = Number (of_nat (count r) * 10);
          userMultiplier = (if row_user_type r = ''enterprise'' then 3 else 1);
          score = mul score (Number userMultiplier);
          score = mul score (category_multiplier (row_category r));
          recencyMultiplier =
            (if avg_age_days r < 1 then 15 / 10 else if avg_age_days r < 7 then 12 / 10 else 1);
          score = mul score (Number recencyMultiplier);
          (sentiment, score) = sentiment_step aiResponse score;
          velocity = of_nat (count r) / max (avg_age_days r) (1 / 2);
          trend =
            (if velocity > 5 then ''accelerating''
             else if velocity > 2 then ''rising'' else ''stable'');
          score = (if trend = ''accelerating'' then mul score (Number (13 / 10)) else score)
      in \<lparr> category = row_category r,
           user_type = row_user_type r,
           complaint_count = count r,
           severity_score = Math_round score,
           sentiment = sentiment,
           trend = trend,
           velocity = of_int \<lfloor>velocity * 10 + 1 / 2\<rfloor> / 10,
           sample_feedback = take 3 (split (samples r) '' ||| ''),
           recommendation =
             generateRecommendation (row_category r) (row_user_type r) trend sentiment \<rparr>)"

subsection \<open>The whole run\<close>

record analysis =
  analysis_time :: string
  total_risks :: nat
  critical_count :: nat
  top_risks :: "RiskAnalysis list"
  all_risks :: "RiskAnalysis list"
  cached :: bool

text \<open>
  The bindings of the worker. \<open>DB\<close> is the outcome of the grouped query. \<open>AI\<close> answers
  the classifier call made for the row at the given position with the given user
  message. \<open>CACHE\<close> may be unbound; when bound, a read gives the stored value for a key,
  if there is one, and both reads and writes may throw. \<open>now\<close> is the time stamp the
  clock gives.
\<close>

record KVNamespace =
  kv_get :: "string \<Rightarrow> error + analysis option"
  kv_put :: "string \<Rightarrow> analysis \<Rightarrow> nat \<Rightarrow> error + unit"

record Env =
  DB :: "error + row list"
  AI :: "nat \<Rightarrow> string \<Rightarrow> error + string option"
  CACHE :: "KVNamespace option"
  now :: string

text \<open>The calls a run makes on its bindings, in the order it makes them.\<close>

datatype event =
    CacheGet string
  | DbAll
  | AiRun string
  | CachePut string analysis nat

definition user_message :: "row \<Rightarrow> string" where
  \<open>user_message r =
     ''Analyze sentiment of these complaints. Return JSON with format: {"sentiment": "critical|negative|neutral|positive", "confidence": 0-100, "key_issue": "one sentence"}''
     @ [CHR 0x0A, CHR 0x0A] @ ''Complaints: '' @ take 800 (samples r)\<close>

fun assess_rows :: "(nat \<Rightarrow> string \<Rightarrow> error + string option) \<Rightarrow> nat \<Rightarrow> row list \<Rightarrow> RiskAnalysis list" where
  "assess_rows ai i [] = []"
| "assess_rows ai i (r # rs) = assess (ai i (user_message r)) r # assess_rows ai (Suc i) rs"

text \<open>
  \<^verbatim>\<open>Array.prototype.sort\<close> with a comparator. The sort is stable, so with a
  comparator that orders the elements consistently its result is the one that
  insertion from the right gives: an element goes behind those the comparator puts
  strictly before it. A comparator result of \<open>NaN\<close> counts as zero.
\<close>

fun positive :: "number \<Rightarrow> bool" where
  "positive (Number v) = (v > 0)"
| "positive NaN = False"

fun insert_by :: "('a \<Rightarrow> 'a \<Rightarrow> number) \<Rightarrow> 'a \<Rightarrow> 'a list \<Rightarrow> 'a list" where
  "insert_by cmp x [] = [x]"
| "insert_by cmp x (y # ys) =
     (if positive (cmp x y) then y # insert_by cmp x ys else x # y # ys)"

definition sort_by :: "('a \<Rightarrow> 'a \<Rightarrow> number) \<Rightarrow> 'a list \<Rightarrow> 'a list" where
  "sort_by cmp xs = foldr (insert_by cmp) xs []"

definition by_severity :: "RiskAnalysis \<Rightarrow> RiskAnalysis \<Rightarrow> number" where
  "by_severity a b = sub (severity_score b) (severity_score a)"

definition cacheKey :: string where
  "cacheKey = ''analysis:latest''"

text \<open>\<^verbatim>\<open>env.CACHE?.get(cacheKey, 'json')\<close>: without a binding, \<^verbatim>\<open>undefined\<close>.\<close>

definition cache_read :: "Env \<Rightarrow> (error + analysis option) \<times> event list" where
  "cache_read env =
     (case CACHE env of
        None \<Rightarrow> (Inr None, [])
      | Some kv \<Rightarrow> (kv_get kv cacheKey, [CacheGet cacheKey]))"

text \<open>\<^verbatim>\<open>env.CACHE?.put(cacheKey, JSON.stringify(analysis), { expirationTtl: 300 })\<close>.\<close>

definition cache_write :: "Env \<Rightarrow> analysis \<Rightarrow> (error + unit) \<times> event list" where
  "cache_write env a =
     (case CACHE env of
        None \<Rightarrow> (Inr (), [])
      | Some kv \<Rightarrow> (kv_put kv cacheKey a 300, [CachePut cacheKey a 300]))"

text \<open>The part of \<^verbatim>\<open>analyzeSeverity\<close> between the query and the cache write.\<close>

definition build_analysis :: "Env \<Rightarrow> row list \<Rightarrow> analysis" where
  "build_analysis env results =
     (let risks = assess_rows (AI env) 0 results;
          risks = sort_by by_severity risks
      in \<lparr> analysis_time = now env,
           total_risks = length risks,
           critical_count = length (filter (\<lambda>r. gt (severity_score r) (Number 100)) risks),
           top_risks = take 5 risks,
           all_risks = risks,
           cached = False \<rparr>)"

text \<open>
  \<^verbatim>\<open>analyzeSeverity\<close>: the response, or the exception that leaves the function,
  together with the calls made. No call on the cache or the store is guarded by a
  \<^verbatim>\<open>try\<close>.
\<close>

definition analyzeSeverity :: "Env \<Rightarrow> (error + analysis) \<times> event list" where
  "analyzeSeverity env =
     (case cache_read env of
        (Inl e, t1) \<Rightarrow> (Inl e, t1)
      | (Inr (Some hit), t1) \<Rightarrow> (Inr (hit\<lparr>cached := True\<rparr>), t1)
      | (Inr None, t1) \<Rightarrow>
          (case DB env of
             Inl e \<Rightarrow> (Inl e, t1 @ [DbAll])
           | Inr results \<Rightarrow>
               (let a = build_analysis env results;
                    t2 = t1 @ [DbAll] @ map (\<lambda>r. AiRun (user_message r)) results
                in case cache_write env a of
                     (Inl e, t3) \<Rightarrow> (Inl e, t2 @ t3)
                   | (Inr _, t3) \<Rightarrow> (Inr a, t2 @ t3))))"

section \<open>The scoring rule in the words of the specification\<close>

text \<open>
  The specification gives the score as a product of the base, ten points per complaint,
  with five multipliers taken in a fixed order, rounded to the nearest integer with a
  tie going up, and the velocity as the count over the average age with a floor of
  half a day, classified at 5 and at 2. These definitions follow its wording, not the
  code; the properties below compare the two.
\<close>

definition userMult :: "string \<Rightarrow> rat" where
  "userMult u = (if u = ''enterprise'' then 3 else 1)"

definition catMult :: "string \<Rightarrow> rat" where
  "catMult k =
     (if k = ''performance'' then 2
      else if k = ''reliability'' then 18 / 10
      else if k = ''billing'' then 17 / 10
      else if k = ''security'' then 25 / 10
      else if k = ''data-loss'' then 3
      else 1)"

definition recencyMult :: "rat \<Rightarrow> rat" where
  "recencyMult a = (if a < 1 then 15 / 10 else if a < 7 then 12 / 10 else 1)"

definition sentMult :: "json \<Rightarrow> rat" where
  "sentMult s =
     (if s = JString ''critical'' then 14 / 10
      else if s = JString ''negative'' then 12 / 10
      else 1)"

definition trendMult :: "string \<Rightarrow> rat" where
  "trendMult t = (if t = ''accelerating'' then 13 / 10 else 1)"

definition spec_velocity :: "nat \<Rightarrow> rat \<Rightarrow> rat" where
  "spec_velocity c a = of_nat c / max a (1 / 2)"

definition spec_trend :: "rat \<Rightarrow> string" where
  "spec_trend v = (if v > 5 then ''accelerating'' else if v > 2 then ''rising'' else ''stable'')"

definition round_half_up :: "rat \<Rightarrow> int" where
  "round_half_up x = \<lfloor>x + 1 / 2\<rfloor>"

definition spec_score :: "nat \<Rightarrow> string \<Rightarrow> string \<Rightarrow> rat \<Rightarrow> json \<Rightarrow> string \<Rightarrow> int" where
  "spec_score c u k a s t =
     round_half_up
       (of_nat c * 10 * userMult u * catMult k * recencyMult a * sentMult s * trendMult t)"

section \<open>Ranking order and example cohorts\<close>

text \<open>A list of assessments is in descending order when each score is at least every later one.\<close>

definition descending :: "RiskAnalysis list \<Rightarrow> bool" where
  "descending xs = sorted_wrt (\<lambda>a b. ge (severity_score a) (severity_score b)) xs"

text \<open>
  Three cohorts used as concrete inputs: the enterprise performance cohort of the
  specification's example, a cohort of the seed data, and a cohort whose category is
  the name of an inherited member.
\<close>

definition timeouts :: row where
  "timeouts =
     \<lparr> row_category = ''performance'', row_user_type = ''enterprise'', count = 3,
       samples = ''Timeout on inference ||| Rate limits too low ||| Uploads slow'',
       avg_age_days = 1 / 2 \<rparr>"

definition docs :: row where
  "docs =
     \<lparr> row_category = ''documentation'', row_user_type = ''developer'', count = 2,
       samples = ''Migration docs confusing ||| Model guide missing'', avg_age_days = 10 \<rparr>"

definition builds :: row where
  "builds =
     \<lparr> row_category = ''constructor'', row_user_type = ''developer'', count = 3,
       samples = ''Constructor call fails'', avg_age_days = 10 \<rparr>"

text \<open>
  Two classifiers that differ in the first call only: it times out for one and answers
  \<^verbatim>\<open>neutral\<close> for the other.
\<close>

definition failing_first :: "nat \<Rightarrow> string \<Rightarrow> error + string option" where
  "failing_first j p = (if j = 0 then Inl (Failure ''timeout'') else Inr (Some ''negative''))"

definition neutral_first :: "nat \<Rightarrow> string \<Rightarrow> error + string option" where
  "neutral_first j p = (if j = 0 then Inr (Some ''neutral'') else Inr (Some ''negative''))"

text \<open>
  Bindings for the examples: a worker without a cache, and caches that are empty, hold
  a stored analysis, cannot be read, or cannot be written.
\<close>

definition no_cache :: Env where
  "no_cache =
     \<lparr> DB = Inr [timeouts, docs], AI = neutral_first, CACHE = None,
       now = ''2026-01-30T12:00:00.000Z'' \<rparr>"

definition stored :: analysis where
  "stored =
     \<lparr> analysis_time = ''2026-01-30T11:58:00.000Z'', total_risks = 0, critical_count = 0,
       top_risks = [], all_risks = [], cached = False \<rparr>"

definition empty_cache :: KVNamespace where
  "empty_cache = \<lparr> kv_get = (\<lambda>k. Inr None), kv_put = (\<lambda>k a ttl. Inr ()) \<rparr>"

definition warm_cache :: KVNamespace where
  "warm_cache =
     \<lparr> kv_get = (\<lambda>k. if k = ''analysis:latest'' then Inr (Some stored) else Inr None),
       kv_put = (\<lambda>k a ttl. Inr ()) \<rparr>"

definition unreadable_cache :: KVNamespace where
  "unreadable_cache =
     \<lparr> kv_get = (\<lambda>k. Inl (Failure ''KV read failed'')), kv_put = (\<lambda>k a ttl. Inr ()) \<rparr>"

definition unwritable_cache :: KVNamespace where
  "unwritable_cache =
     \<lparr> kv_get = (\<lambda>k. Inr None), kv_put = (\<lambda>k a ttl. Inl (Failure ''KV write failed'')) \<rparr>"

section \<open>Properties\<close>

subsection \<open>Fields of an assessment\<close>

text \<open>The loop body with its steps put together.\<close>

lemma assess_unfold:
  "assess a r =
     (let step =
            sentiment_step a
              (mul (mul (mul (Number (of_nat (count r) * 10))
                          (Number (if row_user_type r = ''enterprise'' then 3 else 1)))
                     (category_multiplier (row_category r)))
                 (Number (if avg_age_days r < 1 then 15 / 10
                          else if avg_age_days r < 7 then 12 / 10 else 1)));
          t = spec_trend (spec_velocity (count r) (avg_age_days r))
      in \<lparr> category = row_category r,
           user_type = row_user_type r,
           complaint_count = count r,
           severity_score =
             Math_round (if t = ''accelerating'' then mul (snd step) (Number (13 / 10)) else snd step),
           sentiment = fst step,
           trend = t,
           velocity = of_int \<lfloor>spec_velocity (count r) (avg_age_days r) * 10 + 1 / 2\<rfloor> / 10,
           sample_feedback = take 3 (split (samples r) '' ||| ''),
           recommendation = generateRecommendation (row_category r) (row_user_type r) t (fst step) \<rparr>)"
  by (simp only: assess_def Let_def case_prod_beta spec_velocity_def spec_trend_def)

lemma assess_fields:
  "category (assess a r) = row_category r"
  "user_type (assess a r) = row_user_type r"
  "complaint_count (assess a r) = count r"
  "trend (assess a r) = spec_trend (spec_velocity (count r) (avg_age_days r))"
  "velocity (assess a r) =
     of_int \<lfloor>spec_velocity (count r) (avg_age_days r) * 10 + 1 / 2\<rfloor> / 10"
  "sample_feedback (assess a r) = take 3 (split (samples r) '' ||| '')"
  by (simp_all add: assess_unfold Let_def)

subsection \<open>Velocity and trend\<close>



subsection \<open>Sample texts\<close>






subsection \<open>The severity score\<close>

text \<open>
  For a category that is not the name of an inherited member, the factor the code
  applies is the multiplier of the specification; for the name of an inherited member
  it is \<open>NaN\<close>, and every later product stays \<open>NaN\<close>.
\<close>

lemma category_multiplier_listed:
  "k \<notin> set Object_prototype \<Longrightarrow> category_multiplier k = Number (catMult k)"
  by (simp add: category_multiplier_def get_property_def criticalCategories_def catMult_def)

lemma category_multiplier_inherited:
  "k \<in> set Object_prototype \<Longrightarrow> category_multiplier k = NaN"
  by (auto simp: category_multiplier_def get_property_def criticalCategories_def Object_prototype_def)

lemma sentiment_step_Number:
  "sentiment_step a (Number x) =
     (fst (sentiment_step a (Number x)), Number (x * sentMult (fst (sentiment_step a (Number x)))))"
  by (auto simp: sentiment_step_def sentMult_def split: sum.splits)

lemma sentiment_step_NaN: "snd (sentiment_step a NaN) = NaN"
  by (auto simp: sentiment_step_def split: sum.splits)

lemma sentiment_assess: "sentiment (assess a r) = fst (sentiment_step a x)"
  by (simp add: assess_unfold Let_def sentiment_step_def split: sum.splits)

lemma severity_formula:
  assumes "row_category r \<notin> set Object_prototype"
  shows "severity_score (assess a r) =
    Number (of_int (spec_score (count r) (row_user_type r) (row_category r) (avg_age_days r)
      (sentiment (assess a r)) (trend (assess a r))))"
proof -
  define x where "x = of_nat (count r) * 10 * userMult (row_user_type r)
    * catMult (row_category r) * recencyMult (avg_age_days r)"
  obtain s y where step: "sentiment_step a (Number x) = (s, y)"
    by (cases "sentiment_step a (Number x)")
  with sentiment_step_Number [of a x] have y: "y = Number (x * sentMult s)"
    by simp
  have s: "sentiment (assess a r) = s"
    using step sentiment_assess [of a r "Number x"] by simp
  define t where "t = spec_trend (spec_velocity (count r) (avg_age_days r))"
  have "severity_score (assess a r) =
      Math_round (if t = ''accelerating'' then mul y (Number (13 / 10)) else y)"
    using assms step
    by (simp add: assess_unfold Let_def category_multiplier_listed x_def userMult_def
        recencyMult_def t_def)
  also have "\<dots> = Math_round (Number (x * sentMult s * trendMult t))"
    by (simp add: y trendMult_def)
  finally show ?thesis
    by (simp add: spec_score_def round_half_up_def x_def s t_def assess_fields)
qed

lemma severity_inherited:
  assumes "row_category r \<in> set Object_prototype"
  shows "severity_score (assess a r) = NaN"
proof -
  obtain s y where step: "sentiment_step a NaN = (s, y)"
    by (cases "sentiment_step a NaN")
  with sentiment_step_NaN [of a] have "y = NaN" by simp
  with assms step show ?thesis
    by (simp add: assess_unfold Let_def category_multiplier_inherited)
qed

lemma spec_score_nonneg: "0 \<le> spec_score c u k a s t"
proof -
  have "0 \<le> userMult u" "0 \<le> catMult k" "0 \<le> recencyMult a" "0 \<le> sentMult s"
    "0 \<le> trendMult t"
    by (simp_all add: userMult_def catMult_def recencyMult_def sentMult_def trendMult_def)
  then have "0 \<le> of_nat c * 10 * userMult u * catMult k * recencyMult a * sentMult s * trendMult t"
    by (intro mult_nonneg_nonneg) simp_all
  then show ?thesis
    unfolding spec_score_def round_half_up_def by (simp only: zero_le_floor)
qed

lemma severity_example:
  "severity_score (assess (Inr (Some ''critical'')) timeouts) = Number 491"
  by code_simp

lemma spec_score_example:
  "spec_score 3 ''enterprise'' ''performance'' (1 / 2) (JString ''critical'') ''accelerating'' = 491"
  by code_simp

text \<open>
  Claim C1. The specification's score defaults the category multiplier to 1 for every
  category outside its table. The code agrees for all categories except the names of
  the members an object literal inherits (\<open>severity_formula\<close>): for a cohort whose
  category is \<^verbatim>\<open>constructor\<close>, the code's score is \<open>NaN\<close> where the
  specification's is 30.
\<close>

theorem constructor_category_score:
  "severity_score (assess (Inr (Some ''neutral'')) builds) = NaN
   \<and> spec_score (count builds) (row_user_type builds) (row_category builds)
        (avg_age_days builds) (JString ''neutral'') ''stable'' = 30"
  by code_simp

subsection \<open>Enterprise against the other segments\<close>

lemma spec_score_user_mono:
  "spec_score c u k a s t \<le> spec_score c ''enterprise'' k a s t"
proof -
  have factors: "0 \<le> catMult k" "0 \<le> recencyMult a" "0 \<le> sentMult s" "0 \<le> trendMult t"
    by (simp_all add: catMult_def recencyMult_def sentMult_def trendMult_def)
  have "userMult u \<le> userMult ''enterprise''"
    by (simp add: userMult_def)
  then have "of_nat c * 10 * userMult u \<le> of_nat c * 10 * userMult ''enterprise''"
    by (intro mult_left_mono) simp_all
  then have "of_nat c * 10 * userMult u * catMult k * recencyMult a * sentMult s * trendMult t
      \<le> of_nat c * 10 * userMult ''enterprise'' * catMult k * recencyMult a * sentMult s * trendMult t"
    using factors by (intro mult_right_mono)
  then show ?thesis
    unfolding spec_score_def round_half_up_def by (intro floor_mono) simp
qed

lemma enterprise_dominates:
  assumes "row_category r \<notin> set Object_prototype"
  shows "ge (severity_score (assess a (r\<lparr>row_user_type := ''enterprise''\<rparr>)))
            (severity_score (assess a r))"
proof -
  let ?e = "r\<lparr>row_user_type := ''enterprise''\<rparr>"
  have "sentiment (assess a ?e) = sentiment (assess a r)"
    using sentiment_assess [of a ?e NaN] sentiment_assess [of a r NaN] by simp
  moreover have "trend (assess a ?e) = trend (assess a r)"
    by (simp add: assess_fields)
  ultimately show ?thesis
    using assms severity_formula [of ?e a] severity_formula [of r a]
    by (simp add: spec_score_user_mono)
qed


subsection \<open>Ranking\<close>

lemma length_filter_insert_by:
  "length (filter P (insert_by cmp x ys)) = length (filter P (x # ys))"
  by (induction ys) auto

lemma length_filter_sort_by: "length (filter P (sort_by cmp xs)) = length (filter P xs)"
  by (induction xs) (simp_all add: sort_by_def length_filter_insert_by)

lemma length_sort_by: "length (sort_by cmp xs) = length xs"
  using length_filter_sort_by [of "\<lambda>_. True" cmp xs] by simp

lemma set_insert_by: "set (insert_by cmp x ys) = insert x (set ys)"
  by (induction ys) auto

lemma set_sort_by: "set (sort_by cmp xs) = set xs"
  by (induction xs) (simp_all add: sort_by_def set_insert_by)

lemma ties_insert_by:
  "filter (\<lambda>r. severity_score r = v) (insert_by by_severity x ys) =
   filter (\<lambda>r. severity_score r = v) (x # ys)"
proof (induction ys)
  case Nil
  show ?case by simp
next
  case (Cons y ys)
  show ?case
  proof (cases "positive (by_severity x y)")
    case True
    then have "severity_score y \<noteq> severity_score x"
      by (cases "severity_score x"; cases "severity_score y") (simp_all add: by_severity_def)
    with True Cons show ?thesis by auto
  next
    case False
    then show ?thesis by simp
  qed
qed

lemma ties_sort_by:
  "filter (\<lambda>r. severity_score r = v) (sort_by by_severity xs) =
   filter (\<lambda>r. severity_score r = v) xs"
  by (induction xs) (simp_all add: sort_by_def ties_insert_by)

lemma descending_insert_by:
  assumes "descending ys" and "\<forall>r \<in> set (x # ys). severity_score r \<noteq> NaN"
  shows "descending (insert_by by_severity x ys)"
  using assms
proof (induction ys)
  case Nil
  show ?case by (simp add: descending_def)
next
  case (Cons y ys)
  obtain p q where pq: "severity_score x = Number p" "severity_score y = Number q"
    using Cons.prems(2) by (cases "severity_score x"; cases "severity_score y") auto
  have below: "\<forall>z \<in> set ys. ge (severity_score y) (severity_score z)"
    using Cons.prems(1) by (simp add: descending_def)
  show ?case
  proof (cases "positive (by_severity x y)")
    case True
    then have "p < q" using pq by (simp add: by_severity_def)
    then have "ge (severity_score y) (severity_score x)" using pq by simp
    moreover have "descending (insert_by by_severity x ys)"
      using Cons by (simp add: descending_def)
    ultimately show ?thesis
      using True below by (simp add: descending_def set_insert_by)
  next
    case False
    then have "q \<le> p" using pq by (simp add: by_severity_def)
    have "ge (severity_score x) (severity_score z)" if "z \<in> set ys" for z
    proof -
      from that Cons.prems(2) obtain w where w: "severity_score z = Number w"
        by (cases "severity_score z") auto
      with that below pq have "w \<le> q" by auto
      with \<open>q \<le> p\<close> w pq show ?thesis by simp
    qed
    with False \<open>q \<le> p\<close> pq Cons.prems(1) show ?thesis
      by (simp add: descending_def)
  qed
qed

lemma descending_sort_by:
  "\<forall>r \<in> set xs. severity_score r \<noteq> NaN \<Longrightarrow> descending (sort_by by_severity xs)"
proof (induction xs)
  case Nil
  show ?case by (simp add: sort_by_def descending_def)
next
  case (Cons x xs)
  then have "descending (sort_by by_severity xs)" by simp
  moreover have "\<forall>r \<in> set (x # sort_by by_severity xs). severity_score r \<noteq> NaN"
    using Cons.prems by (simp add: set_sort_by)
  ultimately have "descending (insert_by by_severity x (sort_by by_severity xs))"
    by (rule descending_insert_by)
  then show ?case by (simp add: sort_by_def)
qed

lemma set_assess_rows:
  "x \<in> set (assess_rows ai i rows) \<Longrightarrow> \<exists>j r. r \<in> set rows \<and> x = assess (ai j (user_message r)) r"
proof (induction rows arbitrary: i)
  case Nil
  then show ?case by simp
next
  case (Cons a rows)
  show ?case
  proof (cases "x = assess (ai i (user_message a)) a")
    case True
    then show ?thesis by auto
  next
    case False
    with Cons.prems have "x \<in> set (assess_rows ai (Suc i) rows)" by simp
    from Cons.IH [OF this] show ?thesis by auto
  qed
qed

lemma length_assess_rows: "length (assess_rows ai i rows) = length rows"
  by (induction rows arbitrary: i) auto

lemma analysis_fields:
  "all_risks (build_analysis env rows) = sort_by by_severity (assess_rows (AI env) 0 rows)"
  "top_risks (build_analysis env rows) = take 5 (all_risks (build_analysis env rows))"
  "total_risks (build_analysis env rows) = length (all_risks (build_analysis env rows))"
  "critical_count (build_analysis env rows) =
     length (filter (\<lambda>r. gt (severity_score r) (Number 100)) (all_risks (build_analysis env rows)))"
  "cached (build_analysis env rows) = False"
  "analysis_time (build_analysis env rows) = now env"
  by (simp_all add: build_analysis_def Let_def)

lemma ranking_when_scores_are_numbers:
  assumes "\<forall>r \<in> set rows. row_category r \<notin> set Object_prototype"
  shows "descending (all_risks (build_analysis env rows))"
proof -
  have "severity_score x \<noteq> NaN" if "x \<in> set (assess_rows (AI env) 0 rows)" for x
    using set_assess_rows [OF that] assms severity_formula by fastforce
  then show ?thesis
    by (simp add: analysis_fields descending_sort_by)
qed

lemma ranking_in_general:
  "length (top_risks (build_analysis env rows)) = min 5 (total_risks (build_analysis env rows))"
  "total_risks (build_analysis env rows) = length rows"
  "critical_count (build_analysis env rows) =
     length (filter (\<lambda>r. gt (severity_score r) (Number 100)) (assess_rows (AI env) 0 rows))"
  "filter (\<lambda>r. severity_score r = v) (all_risks (build_analysis env rows)) =
     filter (\<lambda>r. severity_score r = v) (assess_rows (AI env) 0 rows)"
  by (simp_all add: analysis_fields length_filter_sort_by length_sort_by length_assess_rows
      ties_sort_by min.commute)

text \<open>
  Claim C2. The list of all risks should be in descending order of score. The sort keeps
  ties in their original order, the top risks are the first five of the list and the
  critical count is the number of scores above 100 whatever the order
  (\<open>ranking_in_general\<close>), and the list is in descending order when no category is the
  name of an inherited member (\<open>ranking_when_scores_are_numbers\<close>). With one such
  category among three cohorts the comparator yields \<open>NaN\<close>, and the list comes out
  with the score 20 ahead of the score 421.
\<close>

theorem inherited_category_breaks_ranking:
  "fst (analyzeSeverity (no_cache\<lparr>DB := Inr [docs, builds, timeouts]\<rparr>))
     = Inr (build_analysis (no_cache\<lparr>DB := Inr [docs, builds, timeouts]\<rparr>) [docs, builds, timeouts])
   \<and> map severity_score
        (all_risks (build_analysis (no_cache\<lparr>DB := Inr [docs, builds, timeouts]\<rparr>) [docs, builds, timeouts]))
     = [Number 20, NaN, Number 421]
   \<and> \<not> descending
        (all_risks (build_analysis (no_cache\<lparr>DB := Inr [docs, builds, timeouts]\<rparr>) [docs, builds, timeouts]))"
  by code_simp

subsection \<open>A failing classifier\<close>

lemma assess_rows_cong:
  "(\<And>j p. i \<le> j \<Longrightarrow> j < i + length rows \<Longrightarrow> assess (ai j (user_message (rows ! (j - i)))) (rows ! (j - i))
      = assess (ai' j (user_message (rows ! (j - i)))) (rows ! (j - i)))
   \<Longrightarrow> assess_rows ai i rows = assess_rows ai' i rows"
proof (induction rows arbitrary: i)
  case Nil
  show ?case by simp
next
  case (Cons r rows)
  have head: "assess (ai i (user_message r)) r = assess (ai' i (user_message r)) r"
    using Cons.prems [of i] by simp
  have "assess_rows ai (Suc i) rows = assess_rows ai' (Suc i) rows"
  proof (rule Cons.IH)
    fix j
    assume j: "Suc i \<le> j" "j < Suc i + length rows"
    then have "(r # rows) ! (j - i) = rows ! (j - Suc i)"
      by (simp add: nth_Cons split: nat.splits) (metis Suc_diff_Suc Suc_le_lessD nat.inject)
    with Cons.prems [of j] j
    show "assess (ai j (user_message (rows ! (j - Suc i)))) (rows ! (j - Suc i)) =
          assess (ai' j (user_message (rows ! (j - Suc i)))) (rows ! (j - Suc i))"
      by simp
  qed
  with head show ?case by simp
qed

lemma assess_rows_nth:
  "k < length rows \<Longrightarrow> assess_rows ai i rows ! k = assess (ai (i + k) (user_message (rows ! k))) (rows ! k)"
proof (induction rows arbitrary: i k)
  case Nil
  then show ?case by simp
next
  case (Cons r rows)
  then show ?case by (cases k) simp_all
qed

lemma assess_failure: 
  "read_sentiment a' = Inr (JString ''neutral'') \<Longrightarrow> assess (Inl e) r = assess a' r"
  by (simp add: assess_unfold sentiment_step_def read_sentiment_def)

lemma sentiment_step_failure: "sentiment_step (Inl e) score = (JString ''neutral'', score)"
  by (simp add: sentiment_step_def read_sentiment_def)

text \<open>
  Claim C3. Suppose the classifier call for the cohort at position \<open>i\<close> throws. Then
  the assessment of that cohort has the sentiment neutral, the sentiment step leaves
  the score as it was, every cohort still has its assessment, and the assessments and
  the whole run, response and calls made, are those of a run that differs only in that
  this call answered and was read as neutral.
\<close>

theorem classifier_failure_is_neutral:
  assumes "DB env = Inr rows" and "i < length rows"
    and "ai i (user_message (rows ! i)) = Inl e"
    and "read_sentiment (ai' i (user_message (rows ! i))) = Inr (JString ''neutral'')"
    and "\<forall>j p. j \<noteq> i \<longrightarrow> ai' j p = ai j p"
  shows "sentiment (assess_rows ai 0 rows ! i) = JString ''neutral''
    \<and> sentiment_step (ai i (user_message (rows ! i))) score = (JString ''neutral'', score)
    \<and> length (assess_rows ai 0 rows) = length rows
    \<and> assess_rows ai 0 rows = assess_rows ai' 0 rows
    \<and> analyzeSeverity (env\<lparr>AI := ai\<rparr>) = analyzeSeverity (env\<lparr>AI := ai'\<rparr>)"
proof -
  have one: "sentiment (assess_rows ai 0 rows ! i) = JString ''neutral''"
    using assms(2,3) sentiment_assess [of "Inl e" "rows ! i" NaN]
    by (simp add: assess_rows_nth sentiment_step_failure)
  have two: "sentiment_step (ai i (user_message (rows ! i))) score = (JString ''neutral'', score)"
    using assms(3) by (simp add: sentiment_step_failure)
  have same: "assess_rows ai 0 rows = assess_rows ai' 0 rows"
  proof (rule assess_rows_cong)
    fix j
    assume "0 \<le> j" "j < 0 + length rows"
    show "assess (ai j (user_message (rows ! (j - 0)))) (rows ! (j - 0)) =
          assess (ai' j (user_message (rows ! (j - 0)))) (rows ! (j - 0))"
    proof (cases "j = i")
      case True
      with assms(3,4) show ?thesis by (simp add: assess_failure)
    next
      case False
      with assms(5) show ?thesis by simp
    qed
  qed
  then have "build_analysis (env\<lparr>AI := ai\<rparr>) rows = build_analysis (env\<lparr>AI := ai'\<rparr>) rows"
    by (simp add: build_analysis_def)
  with assms(1) have "analyzeSeverity (env\<lparr>AI := ai\<rparr>) = analyzeSeverity (env\<lparr>AI := ai'\<rparr>)"
    by (simp add: analyzeSeverity_def cache_read_def cache_write_def split: option.splits sum.splits)
  with one two same show ?thesis
    by (simp add: length_assess_rows)
qed


theorem classifier_failure_is_neutral_witness:
  "sentiment (assess_rows failing_first 0 [timeouts, docs] ! 0) = JString ''neutral''
   \<and> sentiment_step (failing_first 0 (user_message ([timeouts, docs] ! 0))) (Number 270)
       = (JString ''neutral'', Number 270)
   \<and> length (assess_rows failing_first 0 [timeouts, docs]) = length [timeouts, docs]
   \<and> assess_rows failing_first 0 [timeouts, docs] = assess_rows neutral_first 0 [timeouts, docs]
   \<and> analyzeSeverity (no_cache\<lparr>AI := failing_first\<rparr>)
       = analyzeSeverity (no_cache\<lparr>AI := neutral_first\<rparr>)"
proof (rule classifier_failure_is_neutral [where e = "Failure ''timeout''"])
  show "DB no_cache = Inr [timeouts, docs]"
    by (simp add: no_cache_def)
  show "0 < length [timeouts, docs]"
    by simp
  show "failing_first 0 (user_message ([timeouts, docs] ! 0)) = Inl (Failure ''timeout'')"
    by (simp add: failing_first_def)
  show "read_sentiment (neutral_first 0 (user_message ([timeouts, docs] ! 0))) = Inr (JString ''neutral'')"
    by code_simp
  show "\<forall>j p. j \<noteq> 0 \<longrightarrow> neutral_first j p = failing_first j p"
    by (simp add: failing_first_def neutral_first_def)
qed

subsection \<open>Reading the classifier's answer\<close>

lemma sentiment_of_response:
  "sentiment (assess a r) = (case read_sentiment a of Inl e \<Rightarrow> JString ''neutral'' | Inr s \<Rightarrow> s)"
  by (simp add: assess_unfold Let_def sentiment_step_def split: sum.splits)




text \<open>
  A span that parses is an object, since it begins with a brace.
\<close>

lemma json_match_brace:
  assumes "json_match t = Some m"
  shows "\<exists>cs. m = CHR ''{'' # cs"
proof -
  define fb where "fb = dropWhile (\<lambda>c. c \<noteq> CHR ''{'') t"
  from assms have fb: "fb \<noteq> []" "CHR ''}'' \<in> set (tl fb)"
    and m: "m = rev (dropWhile (\<lambda>c. c \<noteq> CHR ''}'') (rev fb))"
    by (auto simp: json_match_def Let_def fb_def split: if_splits)
  from fb(1) have "hd fb = CHR ''{''"
    unfolding fb_def using hd_dropWhile [of "\<lambda>c. c \<noteq> CHR ''{''" t] by simp
  with fb(1) obtain rest where rest: "fb = CHR ''{'' # rest"
    by (cases fb) auto
  with fb(2) have "CHR ''}'' \<in> set (rev rest)" by simp
  then have "dropWhile (\<lambda>c. c \<noteq> CHR ''}'') (rev rest @ [CHR ''{''])
      = dropWhile (\<lambda>c. c \<noteq> CHR ''}'') (rev rest) @ [CHR ''{'']"
    by (intro dropWhile_append1) auto
  with m rest show ?thesis by simp
qed

lemma push_value_bottom:
  assumes "push_value v st = Some (m', st')"
    and "st = [] \<longrightarrow> is_object v"
    and "st \<noteq> [] \<longrightarrow> is_object_frame (last st)"
  shows "object_bottom m' st'"
  using assms by (cases "(v, st)" rule: push_value.cases) (auto split: if_splits)

lemma end_container_bottom:
  assumes "end_container t st = Some (m', st')"
    and "st \<noteq> []" and "is_object_frame (last st)"
  shows "object_bottom m' st'"
proof (cases "(t, st)" rule: end_container.cases)
  case (1 es rest)
  with assms show ?thesis
    by (intro push_value_bottom [of "JArray (rev es)" rest]) (auto split: if_splits)
next
  case (2 ms rest)
  with assms show ?thesis
    by (intro push_value_bottom [of "JObject (rev ms)" rest]) (auto split: if_splits)
qed (use assms in auto)

lemma begin_value_bottom:
  assumes "begin_value t st = Some (m', st')"
    and "st \<noteq> []" and "is_object_frame (last st)"
  shows "object_bottom m' st'"
proof (cases "(t, st)" rule: begin_value.cases)
  case (1 s rest)
  with assms show ?thesis
    by (intro push_value_bottom [of "JString s" st]) auto
next
  case (2 v rest)
  with assms show ?thesis
    by (intro push_value_bottom [of v st]) auto
qed (use assms in auto)

lemma begin_member_bottom:
  assumes "begin_member t st = Some (m', st')"
    and "st \<noteq> []" and "is_object_frame (last st)"
  shows "object_bottom m' st'"
  using assms by (cases "(t, st)" rule: begin_member.cases) (auto split: if_splits)

lemma step_bottom:
  assumes "step m st t = Some (m', st')" and "object_bottom m st"
  shows "object_bottom m' st'"
proof (cases m)
  case WantCommaOrEnd
  show ?thesis
  proof (cases "t = COMMA")
    case True
    with WantCommaOrEnd assms show ?thesis
      by (auto split: list.splits frame.splits option.splits)
  next
    case False
    with WantCommaOrEnd assms show ?thesis
      by (auto intro: end_container_bottom)
  qed
qed (use assms in \<open>auto intro: begin_value_bottom end_container_bottom begin_member_bottom
      split: if_splits\<close>)

lemma run_bottom:
  "run m st ts = Some v \<Longrightarrow> object_bottom m st \<Longrightarrow> is_object v"
proof (induction ts arbitrary: m st)
  case Nil
  then show ?case
    by (cases m) (auto split: list.splits)
next
  case (Cons t ts)
  from Cons.prems(1) obtain m' st' where s: "step m st t = Some (m', st')"
    and r: "run m' st' ts = Some v"
    by (auto split: option.splits)
  from step_bottom [OF s Cons.prems(2)] Cons.IH [OF r] show ?case by blast
qed

lemma parsed_span_is_object:
  assumes "json_match t = Some m" and "JSON_parse m = Some parsed"
  shows "\<exists>ms. parsed = JObject ms"
proof -
  from json_match_brace [OF assms(1)] obtain cs where m: "m = CHR ''{'' # cs" ..
  have "lex (CHR ''{'' # cs) = map_option (Cons LBRACE) (lex cs)"
    by (simp add: is_space_def)
  with assms(2) m obtain ts where "run WantValue [] (LBRACE # ts) = Some parsed"
    by (auto simp: JSON_parse_def split: option.splits)
  then have "run WantKeyOrEnd [ObjectFrame [] None] ts = Some parsed"
    by simp
  then have "is_object parsed"
    by (rule run_bottom) simp
  then show ?thesis
    by (cases parsed) simp_all
qed

text \<open>
  Claim C5, as the code has it. The sentiment of an assessment is neutral when the
  classifier call throws, when the answer has no text, and when the embedded span does
  not parse; it is one of critical, negative and neutral when the answer holds no
  embedded span. When the embedded span parses, it is an object, and the sentiment is
  the value of its \<^verbatim>\<open>sentiment\<close> member whenever that value is truthy, taken as
  it is and whether or not it is one of the four labels; it is neutral when the member
  is absent or falsy.
\<close>

theorem parsed_sentiment_is_kept:
  "sentiment (assess (Inl e) r) = JString ''neutral''
   \<and> sentiment (assess (Inr None) r) = JString ''neutral''
   \<and> (json_match t = None \<longrightarrow>
      sentiment (assess (Inr (Some t)) r)
        \<in> {JString ''critical'', JString ''negative'', JString ''neutral''})
   \<and> (json_match t = Some m \<and> JSON_parse m = None \<longrightarrow>
      sentiment (assess (Inr (Some t)) r) = JString ''neutral'')
   \<and> (json_match t = Some m \<and> JSON_parse m = Some parsed \<longrightarrow>
      (\<exists>ms. parsed = JObject ms
        \<and> (\<forall>v. map_of (rev ms) ''sentiment'' = Some v \<and> truthy v \<longrightarrow>
              sentiment (assess (Inr (Some t)) r) = v)
        \<and> (map_of (rev ms) ''sentiment'' = None
             \<or> (\<exists>v. map_of (rev ms) ''sentiment'' = Some v \<and> \<not> truthy v) \<longrightarrow>
              sentiment (assess (Inr (Some t)) r) = JString ''neutral'')))"
proof -
  have thrown: "sentiment (assess (Inl e) r) = JString ''neutral''"
    by (simp add: sentiment_of_response read_sentiment_def)
  have silent: "sentiment (assess (Inr None) r) = JString ''neutral''"
    by (simp add: sentiment_of_response read_sentiment_def json_match_def keyword_sentiment_def
        toLowerCase_def)
  have scanned: "sentiment (assess (Inr (Some t)) r)
        \<in> {JString ''critical'', JString ''negative'', JString ''neutral''}"
    if "json_match t = None"
    using that by (simp add: sentiment_of_response read_sentiment_def keyword_sentiment_def)
  have unparsed: "sentiment (assess (Inr (Some t)) r) = JString ''neutral''"
    if "json_match t = Some m" and "JSON_parse m = None"
    using that by (simp add: sentiment_of_response read_sentiment_def)
  have parsed: "\<exists>ms. parsed = JObject ms
        \<and> (\<forall>v. map_of (rev ms) ''sentiment'' = Some v \<and> truthy v \<longrightarrow>
              sentiment (assess (Inr (Some t)) r) = v)
        \<and> (map_of (rev ms) ''sentiment'' = None
             \<or> (\<exists>v. map_of (rev ms) ''sentiment'' = Some v \<and> \<not> truthy v) \<longrightarrow>
              sentiment (assess (Inr (Some t)) r) = JString ''neutral'')"
    if "json_match t = Some m" and "JSON_parse m = Some parsed"
  proof -
    from parsed_span_is_object [OF that] obtain ms where "parsed = JObject ms" ..
    with that show ?thesis
      by (auto simp: sentiment_of_response read_sentiment_def sentiment_or_neutral_def)
  qed
  from thrown silent scanned unparsed parsed show ?thesis
    by blast
qed

theorem parsed_sentiment_is_kept_witness:
  \<open>sentiment (assess (Inr (Some ''It looks negative'')) docs)
        \<in> {JString ''critical'', JString ''negative'', JString ''neutral''}
   \<and> sentiment (assess (Inr (Some ''{sentiment: urgent}'')) docs) = JString ''neutral''
   \<and> sentiment (assess (Inr (Some ''{"sentiment": "urgent", "confidence": 80}'')) docs)
     = JString ''urgent''
   \<and> sentiment (assess (Inr (Some ''{"confidence": 80}'')) docs) = JString ''neutral''\<close>
proof -
  let ?t0 = "''It looks negative''"
  let ?t1 = "''{sentiment: urgent}''"
  let ?t2 = \<open>''{"sentiment": "urgent", "confidence": 80}''\<close>
  let ?ms2 = "[(''sentiment'', JString ''urgent''), (''confidence'', JNumber 80)]"
  let ?t3 = \<open>''{"confidence": 80}''\<close>
  let ?ms3 = "[(''confidence'', JNumber 80)]"
  have m0: "json_match ?t0 = None" by code_simp
  have m1: "json_match ?t1 = Some ?t1" by code_simp
  have p1: "JSON_parse ?t1 = None" by code_simp
  have m2: "json_match ?t2 = Some ?t2" by code_simp
  have p2: "JSON_parse ?t2 = Some (JObject ?ms2)" by code_simp
  have v2: "map_of (rev ?ms2) ''sentiment'' = Some (JString ''urgent'')" by simp
  have t2: "truthy (JString ''urgent'')" by simp
  have m3: "json_match ?t3 = Some ?t3" by code_simp
  have p3: "JSON_parse ?t3 = Some (JObject ?ms3)" by code_simp
  have v3: "map_of (rev ?ms3) ''sentiment'' = None" by simp
  from parsed_sentiment_is_kept [of e docs ?t0 m parsed] m0
  have first: "sentiment (assess (Inr (Some ?t0)) docs)
        \<in> {JString ''critical'', JString ''negative'', JString ''neutral''}"
    by blast
  from parsed_sentiment_is_kept [of e docs ?t1 ?t1 parsed] m1 p1
  have second: "sentiment (assess (Inr (Some ?t1)) docs) = JString ''neutral''"
    by blast
  from parsed_sentiment_is_kept [of e docs ?t2 ?t2 "JObject ?ms2"] m2 p2
  obtain ms where ms: "JObject ?ms2 = JObject ms"
    and kept: "\<forall>v. map_of (rev ms) ''sentiment'' = Some v \<and> truthy v \<longrightarrow>
          sentiment (assess (Inr (Some ?t2)) docs) = v"
    by blast
  from ms have "ms = ?ms2"
    by simp
  with kept v2 t2 have third: "sentiment (assess (Inr (Some ?t2)) docs) = JString ''urgent''"
    by blast
  from parsed_sentiment_is_kept [of e docs ?t3 ?t3 "JObject ?ms3"] m3 p3
  obtain ms' where ms': "JObject ?ms3 = JObject ms'"
    and defaulted: "map_of (rev ms') ''sentiment'' = None
          \<or> (\<exists>v. map_of (rev ms') ''sentiment'' = Some v \<and> \<not> truthy v) \<longrightarrow>
          sentiment (assess (Inr (Some ?t3)) docs) = JString ''neutral''"
    by blast
  from ms' have "ms' = ?ms3"
    by simp
  with defaulted v3 have fourth: "sentiment (assess (Inr (Some ?t3)) docs) = JString ''neutral''"
    by blast
  from first second third fourth show ?thesis
    by blast
qed

text \<open>
  Claim C5 as stated fails: the label \<^verbatim>\<open>mixed\<close> in a well-formed answer is carried
  into the assessment, and it is none of the four.
\<close>

theorem unrecognised_sentiment_is_carried:
  \<open>sentiment (assess (Inr (Some ''{"sentiment": "mixed"}'')) docs) = JString ''mixed''
   \<and> JString ''mixed''
        \<notin> {JString ''critical'', JString ''negative'', JString ''neutral'', JString ''positive''}\<close>
  by code_simp

subsection \<open>The cache\<close>

lemma run_miss:
  assumes "CACHE env = Some kv" and "kv_get kv ''analysis:latest'' = Inr None"
    and "DB env = Inr rows"
  shows "snd (analyzeSeverity env) =
      CacheGet ''analysis:latest'' # DbAll # map (\<lambda>r. AiRun (user_message r)) rows
        @ [CachePut ''analysis:latest'' (build_analysis env rows) 300]"
    and "fst (analyzeSeverity env) =
      (case kv_put kv ''analysis:latest'' (build_analysis env rows) 300 of
         Inl e \<Rightarrow> Inl e | Inr u \<Rightarrow> Inr (build_analysis env rows))"
  using assms
  by (simp_all add: analyzeSeverity_def cache_read_def cache_write_def cacheKey_def Let_def
      split: sum.splits)

text \<open>
  Claim C7. With a cache bound, the first call of a run is the read of the key
  \<^verbatim>\<open>analysis:latest\<close>. On a hit the response is the stored value with only its
  \<open>cached\<close> flag set, and the read is the only call made: neither the store nor the
  classifier is consulted. On a miss the run queries the store, calls the classifier
  for every row, and ends with the write of the fresh analysis under the same key with
  a time to live of 300 seconds; the fresh analysis has \<open>cached\<close> false and is the
  response when the write returns.
\<close>

theorem cache_hit_and_miss:
  "(CACHE env = Some kv \<and> kv_get kv ''analysis:latest'' = Inr (Some hit) \<longrightarrow>
      analyzeSeverity env = (Inr (hit\<lparr>cached := True\<rparr>), [CacheGet ''analysis:latest'']))
   \<and> (CACHE env = Some kv \<and> kv_get kv ''analysis:latest'' = Inr None \<and> DB env = Inr rows \<longrightarrow>
      snd (analyzeSeverity env) =
        CacheGet ''analysis:latest'' # DbAll # map (\<lambda>r. AiRun (user_message r)) rows
          @ [CachePut ''analysis:latest'' (build_analysis env rows) 300]
      \<and> cached (build_analysis env rows) = False
      \<and> (kv_put kv ''analysis:latest'' (build_analysis env rows) 300 = Inr () \<longrightarrow>
           fst (analyzeSeverity env) = Inr (build_analysis env rows)))
   \<and> (CACHE env = Some kv \<longrightarrow>
      (\<exists>later. snd (analyzeSeverity env) = CacheGet ''analysis:latest'' # later))"
proof -
  have "\<exists>later. snd (analyzeSeverity env) = CacheGet ''analysis:latest'' # later"
    if "CACHE env = Some kv"
    using that
    by (simp add: analyzeSeverity_def cache_read_def cache_write_def cacheKey_def Let_def
        split: sum.splits option.splits)
  moreover
  have "analyzeSeverity env = (Inr (hit\<lparr>cached := True\<rparr>), [CacheGet ''analysis:latest''])"
    if "CACHE env = Some kv" and "kv_get kv ''analysis:latest'' = Inr (Some hit)"
    using that by (simp add: analyzeSeverity_def cache_read_def cacheKey_def)
  moreover have "fst (analyzeSeverity env) = Inr (build_analysis env rows)"
    if "CACHE env = Some kv" and "kv_get kv ''analysis:latest'' = Inr None"
      and "DB env = Inr rows"
      and "kv_put kv ''analysis:latest'' (build_analysis env rows) 300 = Inr ()"
    using that run_miss(2) [of env kv rows] by simp
  ultimately show ?thesis
    using run_miss(1) [of env kv rows] by (simp add: analysis_fields)
qed

theorem cache_hit_and_miss_witness:
  "analyzeSeverity (no_cache\<lparr>CACHE := Some warm_cache\<rparr>)
     = (Inr (stored\<lparr>cached := True\<rparr>), [CacheGet ''analysis:latest''])
   \<and> snd (analyzeSeverity (no_cache\<lparr>CACHE := Some empty_cache\<rparr>)) =
        CacheGet ''analysis:latest'' # DbAll # map (\<lambda>r. AiRun (user_message r)) [timeouts, docs]
          @ [CachePut ''analysis:latest''
               (build_analysis (no_cache\<lparr>CACHE := Some empty_cache\<rparr>) [timeouts, docs]) 300]
   \<and> cached (build_analysis (no_cache\<lparr>CACHE := Some empty_cache\<rparr>) [timeouts, docs]) = False
   \<and> fst (analyzeSeverity (no_cache\<lparr>CACHE := Some empty_cache\<rparr>))
       = Inr (build_analysis (no_cache\<lparr>CACHE := Some empty_cache\<rparr>) [timeouts, docs])"
proof -
  let ?warm = "no_cache\<lparr>CACHE := Some warm_cache\<rparr>"
  let ?cold = "no_cache\<lparr>CACHE := Some empty_cache\<rparr>"
  have w1: "CACHE ?warm = Some warm_cache" by simp
  have w2: "kv_get warm_cache ''analysis:latest'' = Inr (Some stored)"
    by (simp add: warm_cache_def)
  have c1: "CACHE ?cold = Some empty_cache" by simp
  have c2: "kv_get empty_cache ''analysis:latest'' = Inr None"
    by (simp add: empty_cache_def)
  have c3: "DB ?cold = Inr [timeouts, docs]"
    by (simp add: no_cache_def)
  have c4: "kv_put empty_cache ''analysis:latest'' (build_analysis ?cold [timeouts, docs]) 300 = Inr ()"
    by (simp add: empty_cache_def)
  from cache_hit_and_miss [of ?warm warm_cache stored rows] w1 w2
  have hit: "analyzeSeverity ?warm = (Inr (stored\<lparr>cached := True\<rparr>), [CacheGet ''analysis:latest''])"
    by blast
  from cache_hit_and_miss [of ?cold empty_cache hit "[timeouts, docs]"] c1 c2 c3 c4
  have miss: "snd (analyzeSeverity ?cold) =
        CacheGet ''analysis:latest'' # DbAll # map (\<lambda>r. AiRun (user_message r)) [timeouts, docs]
          @ [CachePut ''analysis:latest'' (build_analysis ?cold [timeouts, docs]) 300]
      \<and> cached (build_analysis ?cold [timeouts, docs]) = False
      \<and> fst (analyzeSeverity ?cold) = Inr (build_analysis ?cold [timeouts, docs])"
    by blast
  from hit miss show ?thesis
    by blast
qed

text \<open>
  Claim C8, as the code has it. A worker with no cache bound never fails for that
  reason: the read is skipped and counts as a miss, the analysis is computed, the write
  is skipped and the fresh analysis is the response. An exception thrown by the read
  or by the write of a bound cache is not caught: it leaves the function, and the run
  fails with it.
\<close>

theorem cache_failures_propagate:
  "(CACHE env = None \<and> DB env = Inr rows \<longrightarrow>
      analyzeSeverity env =
        (Inr (build_analysis env rows), DbAll # map (\<lambda>r. AiRun (user_message r)) rows))
   \<and> (CACHE env = Some kv \<and> kv_get kv ''analysis:latest'' = Inl e \<longrightarrow>
      analyzeSeverity env = (Inl e, [CacheGet ''analysis:latest'']))
   \<and> (CACHE env = Some kv \<and> kv_get kv ''analysis:latest'' = Inr None \<and> DB env = Inr rows
      \<and> kv_put kv ''analysis:latest'' (build_analysis env rows) 300 = Inl e \<longrightarrow>
      fst (analyzeSeverity env) = Inl e)"
proof -
  have "analyzeSeverity env =
      (Inr (build_analysis env rows), DbAll # map (\<lambda>r. AiRun (user_message r)) rows)"
    if "CACHE env = None" and "DB env = Inr rows"
    using that by (simp add: analyzeSeverity_def cache_read_def cache_write_def Let_def)
  moreover have "analyzeSeverity env = (Inl e, [CacheGet ''analysis:latest''])"
    if "CACHE env = Some kv" and "kv_get kv ''analysis:latest'' = Inl e"
    using that by (simp add: analyzeSeverity_def cache_read_def cacheKey_def)
  moreover have "fst (analyzeSeverity env) = Inl e"
    if "CACHE env = Some kv" and "kv_get kv ''analysis:latest'' = Inr None"
      and "DB env = Inr rows"
      and "kv_put kv ''analysis:latest'' (build_analysis env rows) 300 = Inl e"
    using that run_miss(2) [of env kv rows] by simp
  ultimately show ?thesis
    by blast
qed

theorem cache_failures_propagate_witness:
  "analyzeSeverity no_cache =
     (Inr (build_analysis no_cache [timeouts, docs]),
      DbAll # map (\<lambda>r. AiRun (user_message r)) [timeouts, docs])
   \<and> analyzeSeverity (no_cache\<lparr>CACHE := Some unreadable_cache\<rparr>)
       = (Inl (Failure ''KV read failed''), [CacheGet ''analysis:latest''])
   \<and> fst (analyzeSeverity (no_cache\<lparr>CACHE := Some unwritable_cache\<rparr>))
       = Inl (Failure ''KV write failed'')"
proof -
  let ?r = "no_cache\<lparr>CACHE := Some unreadable_cache\<rparr>"
  let ?w = "no_cache\<lparr>CACHE := Some unwritable_cache\<rparr>"
  have n1: "CACHE no_cache = None" and n2: "DB no_cache = Inr [timeouts, docs]"
    by (simp_all add: no_cache_def)
  have r1: "CACHE ?r = Some unreadable_cache" by simp
  have r2: "kv_get unreadable_cache ''analysis:latest'' = Inl (Failure ''KV read failed'')"
    by (simp add: unreadable_cache_def)
  have w1: "CACHE ?w = Some unwritable_cache" by simp
  have w2: "kv_get unwritable_cache ''analysis:latest'' = Inr None"
    by (simp add: unwritable_cache_def)
  have w3: "DB ?w = Inr [timeouts, docs]"
    by (simp add: no_cache_def)
  have w4: "kv_put unwritable_cache ''analysis:latest'' (build_analysis ?w [timeouts, docs]) 300
      = Inl (Failure ''KV write failed'')"
    by (simp add: unwritable_cache_def)
  from cache_failures_propagate [of no_cache "[timeouts, docs]" kv e] n1 n2
  have on_absent: "analyzeSeverity no_cache =
     (Inr (build_analysis no_cache [timeouts, docs]),
      DbAll # map (\<lambda>r. AiRun (user_message r)) [timeouts, docs])"
    by blast
  from cache_failures_propagate [of ?r rows unreadable_cache "Failure ''KV read failed''"] r1 r2
  have on_read: "analyzeSeverity ?r = (Inl (Failure ''KV read failed''), [CacheGet ''analysis:latest''])"
    by blast
  from cache_failures_propagate [of ?w "[timeouts, docs]" unwritable_cache "Failure ''KV write failed''"]
    w1 w2 w3 w4
  have on_write: "fst (analyzeSeverity ?w) = Inl (Failure ''KV write failed'')"
    by blast
  from on_absent on_read on_write show ?thesis
    by blast
qed

text \<open>
  Claim C8 as stated fails: with a cache whose read throws, and with a cache whose
  write throws, the run ends with that exception, where the same worker with an empty
  cache responds with the analysis.
\<close>

theorem cache_exceptions_fail_the_run:
  "fst (analyzeSeverity (no_cache\<lparr>CACHE := Some unreadable_cache\<rparr>))
     = Inl (Failure ''KV read failed'')
   \<and> fst (analyzeSeverity (no_cache\<lparr>CACHE := Some unwritable_cache\<rparr>))
     = Inl (Failure ''KV write failed'')
   \<and> fst (analyzeSeverity (no_cache\<lparr>CACHE := Some empty_cache\<rparr>))
     = Inr (build_analysis (no_cache\<lparr>CACHE := Some empty_cache\<rparr>) [timeouts, docs])"
  by (simp add: analyzeSeverity_def cache_read_def cache_write_def cacheKey_def Let_def
      no_cache_def unreadable_cache_def unwritable_cache_def empty_cache_def)

end
